theory Spec2Isabelle
  imports Main "HOL-Library.AList"
begin

section \<open>Values, objects and thrown errors\<close>

text \<open>
  The route handlers of \<^verbatim>\<open>src/router/data.js\<close> never inspect the values they move
  around; they read \<^verbatim>\<open>req.user.roles\<close>, \<^verbatim>\<open>req.query\<close>, \<^verbatim>\<open>req.body\<close> and
  \<^verbatim>\<open>req.params\<close> and hand them to their collaborators. A JavaScript object is an
  association list of its own enumerable properties in insertion order; reading a property
  is \<^const>\<open>map_of\<close>.
\<close>

datatype jsval =
    JUndefined
  | JNull
  | JBool bool
  | JNum int
  | JStr string
  | JArr "jsval list"
  | JObj "(string \<times> jsval) list"

type_synonym jsobj = "(string \<times> jsval) list"

text \<open>
  Object spread \<^verbatim>\<open>{...target, ...src}\<close>: for every own key of \<^verbatim>\<open>src\<close>, in order,
  the value read from \<^verbatim>\<open>src\<close> is stored under that key in the target (an existing key
  keeps its place and gets the new value, a new key is appended).
\<close>

definition spread :: "jsobj \<Rightarrow> jsobj \<Rightarrow> jsobj" where
  "spread target src =
     fold (\<lambda>k acc. case map_of src k of None \<Rightarrow> acc | Some v \<Rightarrow> AList.update k v acc)
          (map fst src) target"

text \<open>The error kinds of the specification (section 7).\<close>

datatype error =
    PermissionDenied
  | MissingRequiredField string
  | InvalidIdentifier
  | InvalidSortColumn string
  | DatabaseError string

text \<open>
  What an \<^verbatim>\<open>async\<close> handler can reject with: the \<^verbatim>\<open>TypeError\<close> that JavaScript raises
  when a property of \<^verbatim>\<open>undefined\<close> is read, or whatever a collaborator threw.
\<close>

datatype thrown = TypeError | Kind error

section \<open>Requests, collaborators and observable events\<close>

text \<open>
  \<^verbatim>\<open>req.user\<close> is set by the authentication middleware or is undefined (\<open>None\<close>); when
  set, its \<^verbatim>\<open>roles\<close> is the integer bitmask of the caller. \<^verbatim>\<open>req.query\<close>,
  \<^verbatim>\<open>req.body\<close> and \<^verbatim>\<open>req.params\<close> are objects; a request without a body has the
  empty one.
\<close>

record caller =
  roles :: int

record request =
  user :: "caller option"
  query :: jsobj
  body :: jsobj
  params :: jsobj

text \<open>
  The collaborators required at the top of the file: \<^verbatim>\<open>validatePage\<close> of
  \<^verbatim>\<open>../modules/validator\<close> and the four functions of
  \<^verbatim>\<open>../controllers/brokenCarsController\<close>; and \<^verbatim>\<open>sendSuccess\<close>, a method that the
  response object \<^verbatim>\<open>res\<close> brings with it. Their code is not part of the router, so they
  are parameters: each may change the state \<open>'s\<close> behind it (the data store, the
  response), and either returns a value or throws.
\<close>

type_synonym 's call = "'s \<Rightarrow> (thrown + jsval) \<times> 's"

record 's env =
  validatePage :: "int \<Rightarrow> int \<Rightarrow> 's call"
  getData :: "jsobj \<Rightarrow> 's call"
  createData :: "jsobj \<Rightarrow> 's call"
  updateData :: "jsobj \<Rightarrow> 's call"
  deleteData :: "jsobj \<Rightarrow> 's call"
  sendSuccess :: "jsval \<Rightarrow> 's call"

text \<open>
  What a handler does that can be seen from outside, in the order it does it: the calls
  it makes, with their arguments. \<open>SendSuccess\<close> records the call of
  \<^verbatim>\<open>res.sendSuccess\<close>, the only way a handler has of answering.
\<close>

datatype event =
    ValidatePage int int
  | GetData jsobj
  | CreateData jsobj
  | UpdateData jsobj
  | DeleteData jsobj
  | SendSuccess jsval

fun is_validate :: "event \<Rightarrow> bool" where
  "is_validate (ValidatePage r b) = True"
| "is_validate e = False"

fun is_persistence :: "event \<Rightarrow> bool" where
  "is_persistence (GetData q) = True"
| "is_persistence (CreateData q) = True"
| "is_persistence (UpdateData q) = True"
| "is_persistence (DeleteData q) = True"
| "is_persistence e = False"

fun is_response :: "event \<Rightarrow> bool" where
  "is_response (SendSuccess v) = True"
| "is_response e = False"

text \<open>
  The outcome of running a handler: the events in order, whether the promise of the
  \<^verbatim>\<open>async\<close> function resolved (\<open>Inr ()\<close>) or rejected (\<open>Inl\<close> the thrown value), and
  the state the collaborators left.
\<close>

record 's outcome =
  trace :: "event list"
  result :: "thrown + unit"
  store :: 's

section \<open>The four route handlers\<close>

text \<open>
  \<^verbatim>\<open>router.get('/list', async (req, res) => {
      await validatePage(req.user.roles, 1);
      const data = await brokenCarsController.getData(req.query);
      res.sendSuccess({ data });
  });\<close>
  The argument \<^verbatim>\<open>req.user.roles\<close> is evaluated before \<^verbatim>\<open>validatePage\<close> is called;
  with \<^verbatim>\<open>req.user\<close> undefined that evaluation throws. A throwing \<^verbatim>\<open>await\<close>, or a
  throwing \<^verbatim>\<open>res.sendSuccess\<close>, ends the handler with that rejection: there is no
  \<^verbatim>\<open>try\<close> in the file.
\<close>

definition list_handler :: "'s env \<Rightarrow> request \<Rightarrow> 's \<Rightarrow> 's outcome" where
  "list_handler env req s =
     (case user req of
        None \<Rightarrow> \<lparr>trace = [], result = Inl TypeError, store = s\<rparr>
      | Some u \<Rightarrow>
          (case validatePage env (roles u) 1 s of
             (Inl e, s1) \<Rightarrow>
               \<lparr>trace = [ValidatePage (roles u) 1], result = Inl e, store = s1\<rparr>
           | (Inr _, s1) \<Rightarrow>
               (case getData env (query req) s1 of
                  (Inl e, s2) \<Rightarrow>
                    \<lparr>trace = [ValidatePage (roles u) 1, GetData (query req)],
                     result = Inl e, store = s2\<rparr>
                | (Inr data, s2) \<Rightarrow>
                    (case sendSuccess env (JObj [(''data'', data)]) s2 of
                       (Inl e, s3) \<Rightarrow>
                         \<lparr>trace = [ValidatePage (roles u) 1, GetData (query req),
                                   SendSuccess (JObj [(''data'', data)])],
                          result = Inl e, store = s3\<rparr>
                     | (Inr _, s3) \<Rightarrow>
                         \<lparr>trace = [ValidatePage (roles u) 1, GetData (query req),
                                   SendSuccess (JObj [(''data'', data)])],
                          result = Inr (), store = s3\<rparr>))))"

text \<open>
  \<^verbatim>\<open>router.post('/create', async (req, res) => {
      await validatePage(req.user.roles, 2);
      const newBrokenCarId = await brokenCarsController.createData(req.body);
      res.sendSuccess({ newBrokenCarId });
  });\<close>
\<close>

definition create_handler :: "'s env \<Rightarrow> request \<Rightarrow> 's \<Rightarrow> 's outcome" where
  "create_handler env req s =
     (case user req of
        None \<Rightarrow> \<lparr>trace = [], result = Inl TypeError, store = s\<rparr>
      | Some u \<Rightarrow>
          (case validatePage env (roles u) 2 s of
             (Inl e, s1) \<Rightarrow>
               \<lparr>trace = [ValidatePage (roles u) 2], result = Inl e, store = s1\<rparr>
           | (Inr _, s1) \<Rightarrow>
               (case createData env (body req) s1 of
                  (Inl e, s2) \<Rightarrow>
                    \<lparr>trace = [ValidatePage (roles u) 2, CreateData (body req)],
                     result = Inl e, store = s2\<rparr>
                | (Inr newBrokenCarId, s2) \<Rightarrow>
                    (case sendSuccess env (JObj [(''newBrokenCarId'', newBrokenCarId)]) s2 of
                       (Inl e, s3) \<Rightarrow>
                         \<lparr>trace = [ValidatePage (roles u) 2, CreateData (body req),
                                   SendSuccess (JObj [(''newBrokenCarId'', newBrokenCarId)])],
                          result = Inl e, store = s3\<rparr>
                     | (Inr _, s3) \<Rightarrow>
                         \<lparr>trace = [ValidatePage (roles u) 2, CreateData (body req),
                                   SendSuccess (JObj [(''newBrokenCarId'', newBrokenCarId)])],
                          result = Inr (), store = s3\<rparr>))))"

text \<open>
  \<^verbatim>\<open>router.put('/edit/:id', async (req, res) => {
      await validatePage(req.user.roles, 4);
      const data = await brokenCarsController.updateData({...req.params, ...req.body});
      res.sendSuccess({ data });
  });\<close>
\<close>

definition edit_arg :: "request \<Rightarrow> jsobj" where
  "edit_arg req = spread (spread [] (params req)) (body req)"

definition edit_handler :: "'s env \<Rightarrow> request \<Rightarrow> 's \<Rightarrow> 's outcome" where
  "edit_handler env req s =
     (case user req of
        None \<Rightarrow> \<lparr>trace = [], result = Inl TypeError, store = s\<rparr>
      | Some u \<Rightarrow>
          (case validatePage env (roles u) 4 s of
             (Inl e, s1) \<Rightarrow>
               \<lparr>trace = [ValidatePage (roles u) 4], result = Inl e, store = s1\<rparr>
           | (Inr _, s1) \<Rightarrow>
               (case updateData env (edit_arg req) s1 of
                  (Inl e, s2) \<Rightarrow>
                    \<lparr>trace = [ValidatePage (roles u) 4, UpdateData (edit_arg req)],
                     result = Inl e, store = s2\<rparr>
                | (Inr data, s2) \<Rightarrow>
                    (case sendSuccess env (JObj [(''data'', data)]) s2 of
                       (Inl e, s3) \<Rightarrow>
                         \<lparr>trace = [ValidatePage (roles u) 4, UpdateData (edit_arg req),
                                   SendSuccess (JObj [(''data'', data)])],
                          result = Inl e, store = s3\<rparr>
                     | (Inr _, s3) \<Rightarrow>
                         \<lparr>trace = [ValidatePage (roles u) 4, UpdateData (edit_arg req),
                                   SendSuccess (JObj [(''data'', data)])],
                          result = Inr (), store = s3\<rparr>))))"

text \<open>
  \<^verbatim>\<open>router.delete('/delete/:id', async (req, res) => {
      await validatePage(req.user.roles, 8);
      await brokenCarsController.deleteData(req.params);
      res.sendSuccess();
  });\<close>
\<close>

definition delete_handler :: "'s env \<Rightarrow> request \<Rightarrow> 's \<Rightarrow> 's outcome" where
  "delete_handler env req s =
     (case user req of
        None \<Rightarrow> \<lparr>trace = [], result = Inl TypeError, store = s\<rparr>
      | Some u \<Rightarrow>
          (case validatePage env (roles u) 8 s of
             (Inl e, s1) \<Rightarrow>
               \<lparr>trace = [ValidatePage (roles u) 8], result = Inl e, store = s1\<rparr>
           | (Inr _, s1) \<Rightarrow>
               (case deleteData env (params req) s1 of
                  (Inl e, s2) \<Rightarrow>
                    \<lparr>trace = [ValidatePage (roles u) 8, DeleteData (params req)],
                     result = Inl e, store = s2\<rparr>
                | (Inr _, s2) \<Rightarrow>
                    (case sendSuccess env JUndefined s2 of
                       (Inl e, s3) \<Rightarrow>
                         \<lparr>trace = [ValidatePage (roles u) 8, DeleteData (params req),
                                   SendSuccess JUndefined],
                          result = Inl e, store = s3\<rparr>
                     | (Inr _, s3) \<Rightarrow>
                         \<lparr>trace = [ValidatePage (roles u) 8, DeleteData (params req),
                                   SendSuccess JUndefined],
                          result = Inr (), store = s3\<rparr>))))"

text \<open>The four routes registered on the router, and the handler behind each.\<close>

datatype operation = OpList | OpCreate | OpUpdate | OpDelete

fun router :: "operation \<Rightarrow> 's env \<Rightarrow> request \<Rightarrow> 's \<Rightarrow> 's outcome" where
  "router OpList = list_handler"
| "router OpCreate = create_handler"
| "router OpUpdate = edit_handler"
| "router OpDelete = delete_handler"

text \<open>
  The four handlers have one shape: a permission check with a constant bit, one controller
  call, one response. The functions below name the three ingredients of each route, and
  \<open>router_shape\<close> proves that the handlers above are built from them.
\<close>

fun check_bit :: "operation \<Rightarrow> int" where
  "check_bit OpList = 1"
| "check_bit OpCreate = 2"
| "check_bit OpUpdate = 4"
| "check_bit OpDelete = 8"

fun controller_call :: "operation \<Rightarrow> request \<Rightarrow> event" where
  "controller_call OpList req = GetData (query req)"
| "controller_call OpCreate req = CreateData (body req)"
| "controller_call OpUpdate req = UpdateData (edit_arg req)"
| "controller_call OpDelete req = DeleteData (params req)"

fun success_payload :: "operation \<Rightarrow> jsval \<Rightarrow> jsval" where
  "success_payload OpList d = JObj [(''data'', d)]"
| "success_payload OpCreate d = JObj [(''newBrokenCarId'', d)]"
| "success_payload OpUpdate d = JObj [(''data'', d)]"
| "success_payload OpDelete d = JUndefined"

text \<open>The collaborator call that an event records.\<close>

fun perform :: "'s env \<Rightarrow> event \<Rightarrow> 's call" where
  "perform env (ValidatePage r b) = validatePage env r b"
| "perform env (GetData q) = getData env q"
| "perform env (CreateData q) = createData env q"
| "perform env (UpdateData q) = updateData env q"
| "perform env (DeleteData q) = deleteData env q"
| "perform env (SendSuccess v) = sendSuccess env v"

section \<open>The parts of the system behind the router\<close>

text \<open>
  Modelled from the spec: \<^verbatim>\<open>validatePage\<close> lives in \<^verbatim>\<open>../modules/validator\<close>, which is
  not among the sources. Section 4.1 gives its contract as
  \<^verbatim>\<open>checkPermission(roleBitmask, requiredBit)\<close>: it passes if
  \<^verbatim>\<open>(roleBitmask & requiredBit) != 0\<close> and otherwise fails with \<^verbatim>\<open>PermissionDenied\<close>.
\<close>

definition checkPermission :: "int \<Rightarrow> int \<Rightarrow> error + unit" where
  "checkPermission roleBitmask requiredBit =
     (if and roleBitmask requiredBit \<noteq> 0 then Inr () else Inl PermissionDenied)"

text \<open>
  Modelled from the spec: the query builder of section 4.2 is not among the sources (the
  router hands \<^verbatim>\<open>req.query\<close> to the controller as it is). Its contract is
  \<^verbatim>\<open>buildListQuery(filters, pagination: {limit:int=20, offset:int=0}, sortSpec)\<close>:
  every recognised filter key that is present and non-null becomes a predicate, absent
  keys impose none; \<^verbatim>\<open>sortSpec\<close> is a comma-separated list of \<^verbatim>\<open>column|direction\<close>
  pairs, direction \<^verbatim>\<open>asc\<close> or \<^verbatim>\<open>desc\<close> in any case and \<^verbatim>\<open>asc\<close> when omitted, an
  unknown column fails with \<^verbatim>\<open>InvalidSortColumn\<close>; \<^verbatim>\<open>limit\<close> defaults to 20 and
  \<^verbatim>\<open>offset\<close> to 0. The spec asks for both to be non-negative integers and names no
  failure for other values, so they are naturals here.
\<close>

definition record_fields :: "string list" where
  "record_fields =
     [''color'', ''description'', ''year'', ''price'', ''firstBrokenDate'', ''createdDate'',
      ''bodyId'', ''modelId'', ''bodyName'', ''modelName'']"

datatype direction = Asc | Desc

record pagination =
  limit :: "nat option"
  offset :: "nat option"

record query_description =
  predicates :: "(string \<times> jsval) list"
  sort_keys :: "(string \<times> direction) list"
  row_limit :: nat
  row_offset :: nat

fun split_on :: "char \<Rightarrow> string \<Rightarrow> string list" where
  "split_on c [] = [[]]"
| "split_on c (x # xs) =
     (if x = c then [] # split_on c xs
      else (case split_on c xs of [] \<Rightarrow> [[x]] | r # rs \<Rightarrow> (x # r) # rs))"

definition sort_columns :: "string \<Rightarrow> string list" where
  "sort_columns sortSpec = map (takeWhile (\<lambda>c. c \<noteq> CHR ''|'')) (split_on CHR '','' sortSpec)"

definition lower :: "char \<Rightarrow> char" where
  "lower c = (let n = (of_char c :: nat) in if 65 \<le> n \<and> n \<le> 90 then char_of (n + 32) else c)"

definition sort_direction :: "string \<Rightarrow> direction" where
  "sort_direction pair =
     (if map lower (drop 1 (dropWhile (\<lambda>c. c \<noteq> CHR ''|'') pair)) = ''desc'' then Desc else Asc)"

fun sort_pairs :: "string list \<Rightarrow> error + (string \<times> direction) list" where
  "sort_pairs [] = Inr []"
| "sort_pairs (pair # rest) =
     (let column = takeWhile (\<lambda>c. c \<noteq> CHR ''|'') pair in
      if column \<notin> set record_fields then Inl (InvalidSortColumn column)
      else (case sort_pairs rest of
              Inl e \<Rightarrow> Inl e
            | Inr keys \<Rightarrow> Inr ((column, sort_direction pair) # keys)))"

definition filter_predicates :: "jsobj \<Rightarrow> (string \<times> jsval) list" where
  "filter_predicates filters =
     concat (map (\<lambda>k. case map_of filters k of
                        None \<Rightarrow> []
                      | Some v \<Rightarrow> (if v = JNull \<or> v = JUndefined then [] else [(k, v)]))
                 record_fields)"

definition buildListQuery :: "jsobj \<Rightarrow> pagination \<Rightarrow> string option \<Rightarrow> error + query_description" where
  "buildListQuery filters pg sortSpec =
     (case (case sortSpec of None \<Rightarrow> Inr [] | Some spec \<Rightarrow> sort_pairs (split_on CHR '','' spec)) of
        Inl e \<Rightarrow> Inl e
      | Inr keys \<Rightarrow>
          Inr \<lparr>predicates = filter_predicates filters,
               sort_keys = keys,
               row_limit = (case limit pg of None \<Rightarrow> 20 | Some n \<Rightarrow> n),
               row_offset = (case offset pg of None \<Rightarrow> 0 | Some n \<Rightarrow> n)\<rparr>)"

section \<open>Collaborators for running the handlers on concrete requests\<close>

text \<open>
  An environment to run the handlers in: the permission check of the specification, a
  controller that accepts whatever it is given, counts in the state how many times it was
  called and resolves with a fixed value, and a response that can be sent.
\<close>

definition permissive_env :: "nat env" where
  "permissive_env =
     \<lparr>validatePage = (\<lambda>r b s. (case checkPermission r b of
                                  Inl e \<Rightarrow> Inl (Kind e)
                                | Inr _ \<Rightarrow> Inr JUndefined, s)),
      getData = (\<lambda>q s. (Inr (JArr []), Suc s)),
      createData = (\<lambda>q s. (Inr (JNum 51), Suc s)),
      updateData = (\<lambda>q s. (Inr (JObj q), Suc s)),
      deleteData = (\<lambda>q s. (Inr JUndefined, Suc s)),
      sendSuccess = (\<lambda>v s. (Inr JUndefined, s))\<rparr>"

text \<open>The same, with a data store that is down: every controller call throws.\<close>

definition failing_env :: "nat env" where
  "failing_env =
     permissive_env
       \<lparr>getData := (\<lambda>q s. (Inl (Kind (DatabaseError ''42P01'')), Suc s)),
        createData := (\<lambda>q s. (Inl (Kind (DatabaseError ''42P01'')), Suc s)),
        updateData := (\<lambda>q s. (Inl (Kind (DatabaseError ''42P01'')), Suc s)),
        deleteData := (\<lambda>q s. (Inl (Kind (DatabaseError ''42P01'')), Suc s))\<rparr>"

text \<open>The same as the first, with a response object whose \<^verbatim>\<open>sendSuccess\<close> throws.\<close>

definition unsendable_env :: "nat env" where
  "unsendable_env = permissive_env \<lparr>sendSuccess := (\<lambda>v s. (Inl TypeError, s))\<rparr>"

definition request_of :: "int \<Rightarrow> jsobj \<Rightarrow> jsobj \<Rightarrow> jsobj \<Rightarrow> request" where
  "request_of r q b p = \<lparr>user = Some \<lparr>roles = r\<rparr>, query = q, body = b, params = p\<rparr>"

section \<open>The shape of a handler run\<close>

lemmas handler_defs = list_handler_def create_handler_def edit_handler_def delete_handler_def

lemmas run_defs = handler_defs permissive_env_def failing_env_def unsendable_env_def request_of_def
  checkPermission_def edit_arg_def spread_def

lemma is_persistence_controller_call [simp]: "is_persistence (controller_call op req)"
  by (cases op) simp_all

lemma not_response_controller_call [simp]: "\<not> is_response (controller_call op req)"
  by (cases op) simp_all

lemma router_shape:
  assumes "user req = Some u"
  shows
   "(\<exists>e s1. validatePage env (roles u) (check_bit op) s = (Inl e, s1) \<and>
        router op env req s =
          \<lparr>trace = [ValidatePage (roles u) (check_bit op)], result = Inl e, store = s1\<rparr>) \<or>
    (\<exists>v s1 e s2. validatePage env (roles u) (check_bit op) s = (Inr v, s1) \<and>
        perform env (controller_call op req) s1 = (Inl e, s2) \<and>
        router op env req s =
          \<lparr>trace = [ValidatePage (roles u) (check_bit op), controller_call op req],
           result = Inl e, store = s2\<rparr>) \<or>
    (\<exists>v s1 d s2 e s3. validatePage env (roles u) (check_bit op) s = (Inr v, s1) \<and>
        perform env (controller_call op req) s1 = (Inr d, s2) \<and>
        sendSuccess env (success_payload op d) s2 = (Inl e, s3) \<and>
        router op env req s =
          \<lparr>trace = [ValidatePage (roles u) (check_bit op), controller_call op req,
                    SendSuccess (success_payload op d)],
           result = Inl e, store = s3\<rparr>) \<or>
    (\<exists>v s1 d s2 w s3. validatePage env (roles u) (check_bit op) s = (Inr v, s1) \<and>
        perform env (controller_call op req) s1 = (Inr d, s2) \<and>
        sendSuccess env (success_payload op d) s2 = (Inr w, s3) \<and>
        router op env req s =
          \<lparr>trace = [ValidatePage (roles u) (check_bit op), controller_call op req,
                    SendSuccess (success_payload op d)],
           result = Inr (), store = s3\<rparr>)"
proof (cases op)
  case OpList
  with assms show ?thesis
    by (simp add: list_handler_def split: prod.splits sum.splits)
next
  case OpCreate
  with assms show ?thesis
    by (simp add: create_handler_def split: prod.splits sum.splits)
next
  case OpUpdate
  with assms show ?thesis
    by (simp add: edit_handler_def split: prod.splits sum.splits)
next
  case OpDelete
  with assms show ?thesis
    by (simp add: delete_handler_def split: prod.splits sum.splits)
qed

lemma single_check_before:
  assumes "tr = [a] \<or> tr = [a, b] \<or> tr = [a, b, c]"
    and "\<not> is_persistence a" and "\<not> is_persistence c"
    and "tr = pre @ ev # post" and "is_persistence ev"
  shows "pre = [a] \<and> ev = b \<and> tr \<noteq> [a]"
  using assms by (auto simp: Cons_eq_append_conv append_eq_Cons_conv)

lemma router_without_user:
  "user req = None \<Longrightarrow> router op env req s = \<lparr>trace = [], result = Inl TypeError, store = s\<rparr>"
  by (cases op) (simp_all add: handler_defs)

lemma map_of_copy_keys:
  "map_of (fold (\<lambda>k acc. case map_of src k of None \<Rightarrow> acc | Some v \<Rightarrow> AList.update k v acc) ks tgt) k =
     (if k \<in> set ks \<and> map_of src k \<noteq> None then map_of src k else map_of tgt k)"
  by (induction ks arbitrary: tgt) (auto simp: update_conv' split: option.splits)

lemma map_of_spread:
  "map_of (spread tgt src) k = (case map_of src k of None \<Rightarrow> map_of tgt k | Some v \<Rightarrow> Some v)"
  unfolding spread_def map_of_copy_keys
  by (auto simp: map_of_eq_None_iff[symmetric] split: option.splits)

lemma map_of_spread_empty: "map_of (spread [] src) = map_of src"
  by (rule ext) (simp add: map_of_spread split: option.splits)

lemma map_of_edit_arg:
  "map_of (edit_arg req) k =
     (case map_of (body req) k of None \<Rightarrow> map_of (params req) k | Some v \<Rightarrow> Some v)"
  by (simp add: edit_arg_def map_of_spread map_of_spread_empty split: option.splits)

lemma router_after_check:
  assumes "user req = Some u" and "validatePage env (roles u) (check_bit op) s = (Inr v, s1)"
  shows "filter is_persistence (trace (router op env req s)) = [controller_call op req] \<and>
         result (router op env req s) =
           (case perform env (controller_call op req) s1 of
              (Inl e, s2) \<Rightarrow> Inl e
            | (Inr d, s2) \<Rightarrow>
                (case fst (sendSuccess env (success_payload op d) s2) of
                   Inl e \<Rightarrow> Inl e
                 | Inr w \<Rightarrow> Inr ()))"
  using router_shape [OF assms(1), of env op s] assms(2) by auto

section \<open>Authorization\<close>

text \<open>
  C1. For every operation (list, create, update, delete) the permission check is made and
  has completed before the controller is called: whatever precedes a controller call in
  the trace is exactly one \<^verbatim>\<open>validatePage\<close> call, which resolved. If that check throws
  (with \<^verbatim>\<open>PermissionDenied\<close> or anything else), the controller is never called and the
  handler rejects with what the check threw.
\<close>

theorem authorization_precedes_persistence:
  "(\<forall>pre ev post. trace (router op env req s) = pre @ ev # post \<and> is_persistence ev \<longrightarrow>
      (\<exists>r b v s1. pre = [ValidatePage r b] \<and> validatePage env r b s = (Inr v, s1))) \<and>
   (\<forall>r b e s1. ValidatePage r b \<in> set (trace (router op env req s)) \<and>
        validatePage env r b s = (Inl e, s1) \<longrightarrow>
      filter is_persistence (trace (router op env req s)) = [] \<and>
      result (router op env req s) = Inl e \<and> store (router op env req s) = s1)"
proof (cases "user req")
  case None
  then show ?thesis by (simp add: router_without_user)
next
  case (Some u)
  let ?V = "ValidatePage (roles u) (check_bit op)"
  let ?C = "controller_call op req"
  from router_shape [OF Some, of env op s]
  consider
    (denied) e s1 where "validatePage env (roles u) (check_bit op) s = (Inl e, s1)"
      "router op env req s = \<lparr>trace = [?V], result = Inl e, store = s1\<rparr>"
  | (called) v s1 d where "validatePage env (roles u) (check_bit op) s = (Inr v, s1)"
      "trace (router op env req s) = [?V, ?C] \<or> trace (router op env req s) = [?V, ?C, SendSuccess d]"
    by fastforce
  then show ?thesis
  proof cases
    case denied
    have "pre @ ev # post = [?V] \<Longrightarrow> \<not> is_persistence ev" for pre ev post
      by (auto simp: append_eq_Cons_conv)
    with denied show ?thesis by (auto dest: sym)
  next
    case called
    have a: "\<exists>r b v s1. pre = [ValidatePage r b] \<and> validatePage env r b s = (Inr v, s1)"
      if "trace (router op env req s) = pre @ ev # post" "is_persistence ev" for pre ev post
    proof -
      from called(2) have "trace (router op env req s) = [?V] \<or> trace (router op env req s) = [?V, ?C]
          \<or> trace (router op env req s) = [?V, ?C, SendSuccess d]" by blast
      from single_check_before [OF this _ _ that] have "pre = [?V]" by simp
      with called(1) show ?thesis by blast
    qed
    have b: False if "ValidatePage r b \<in> set (trace (router op env req s))"
        "validatePage env r b s = (Inl e, s1)" for r b e s1
    proof -
      from that(1) called(2) have "ValidatePage r b = ?V \<or> ValidatePage r b = ?C"
        by auto
      moreover have "ValidatePage r b \<noteq> ?C" by (cases op) simp_all
      ultimately show False using that(2) called(1) by simp
    qed
    from a b show ?thesis by blast
  qed
qed

theorem authorization_precedes_persistence_witness:
  "trace (router OpDelete permissive_env (request_of 8 [] [] [(''id'', JStr ''1'')]) 0) =
     [ValidatePage 8 8] @ DeleteData [(''id'', JStr ''1'')] # [SendSuccess JUndefined] \<and>
   is_persistence (DeleteData [(''id'', JStr ''1'')]) \<and>
   validatePage permissive_env 8 8 0 = (Inr JUndefined, 0) \<and>
   ValidatePage 7 8 \<in> set (trace (router OpDelete permissive_env (request_of 7 [] [] [(''id'', JStr ''1'')]) 0)) \<and>
   validatePage permissive_env 7 8 0 = (Inl (Kind PermissionDenied), 0) \<and>
   filter is_persistence (trace (router OpDelete permissive_env (request_of 7 [] [] [(''id'', JStr ''1'')]) 0)) = [] \<and>
   result (router OpDelete permissive_env (request_of 7 [] [] [(''id'', JStr ''1'')]) 0) = Inl (Kind PermissionDenied)"
proof -
  let ?ok = "request_of 8 [] [] [(''id'', JStr ''1'')]"
  let ?no = "request_of 7 [] [] [(''id'', JStr ''1'')]"
  have t: "trace (router OpDelete permissive_env ?ok 0) =
       [ValidatePage 8 8] @ DeleteData [(''id'', JStr ''1'')] # [SendSuccess JUndefined]"
    by (simp add: run_defs)
  have p: "is_persistence (DeleteData [(''id'', JStr ''1'')])" by simp
  from authorization_precedes_persistence [of OpDelete permissive_env ?ok 0] t p
  obtain r b v s1 where "[ValidatePage 8 8] = [ValidatePage r b]"
    "validatePage permissive_env r b 0 = (Inr v, s1)" by blast
  then have v: "validatePage permissive_env 8 8 0 = (Inr JUndefined, 0)"
    by (simp add: run_defs)
  have m: "ValidatePage 7 8 \<in> set (trace (router OpDelete permissive_env ?no 0))"
    by (simp add: run_defs)
  have d: "validatePage permissive_env 7 8 0 = (Inl (Kind PermissionDenied), 0)"
    by (simp add: run_defs)
  from authorization_precedes_persistence [of OpDelete permissive_env ?no 0] m d
  have "filter is_persistence (trace (router OpDelete permissive_env ?no 0)) = [] \<and>
        result (router OpDelete permissive_env ?no 0) = Inl (Kind PermissionDenied)"
    by blast
  with t p v m d show ?thesis by blast
qed

text \<open>
  C2. For all role bitmasks \<open>R\<close> and required bits \<open>B\<close>, the permission check succeeds if
  and only if the bitwise AND of \<open>R\<close> and \<open>B\<close> is nonzero; otherwise it fails, and the
  only failure it has is \<^verbatim>\<open>PermissionDenied\<close>.
\<close>

theorem checkPermission_iff:
  "(checkPermission R B = Inr ()) = (and R B \<noteq> 0) \<and>
   (checkPermission R B = Inl PermissionDenied) = (and R B = 0) \<and>
   (\<forall>e. checkPermission R B = Inl e \<longrightarrow> e = PermissionDenied)"
  by (simp add: checkPermission_def)

theorem checkPermission_iff_witness:
  "checkPermission 7 8 = Inl PermissionDenied \<and> and (7::int) 8 = 0 \<and>
   checkPermission 12 8 = Inr () \<and> and (12::int) 8 \<noteq> 0"
proof -
  have a: "and (7::int) 8 = 0" by simp
  have b: "and (12::int) 8 \<noteq> 0" by simp
  from checkPermission_iff [of 7 8] a have "checkPermission 7 8 = Inl PermissionDenied" by blast
  moreover from checkPermission_iff [of 12 8] b have "checkPermission 12 8 = Inr ()" by blast
  ultimately show ?thesis using a b by blast
qed

text \<open>
  C3. Each operation checks exactly its designated permission bit: whenever the caller is
  known, the list handler makes one permission check, with bit 1, the create handler one
  with bit 2, the update handler one with bit 4 and the delete handler one with bit 8,
  each on the caller's role bitmask.
\<close>

theorem designated_bits:
  "user req = Some u \<Longrightarrow>
     filter is_validate (trace (list_handler env req s)) = [ValidatePage (roles u) 1] \<and>
     filter is_validate (trace (create_handler env req s)) = [ValidatePage (roles u) 2] \<and>
     filter is_validate (trace (edit_handler env req s)) = [ValidatePage (roles u) 4] \<and>
     filter is_validate (trace (delete_handler env req s)) = [ValidatePage (roles u) 8]"
proof -
  assume u: "user req = Some u"
  have "filter is_validate (trace (router op env req s)) = [ValidatePage (roles u) (check_bit op)]" for op
  proof -
    have "\<not> is_validate (controller_call op req)" by (cases op) simp_all
    with router_shape [OF u, of env op s] show ?thesis by auto
  qed
  from this [of OpList] this [of OpCreate] this [of OpUpdate] this [of OpDelete]
  show ?thesis by simp
qed

theorem designated_bits_witness:
  "filter is_validate (trace (list_handler permissive_env (request_of 3 [] [] []) 0)) = [ValidatePage 3 1] \<and>
   filter is_validate (trace (create_handler permissive_env (request_of 3 [] [] []) 0)) = [ValidatePage 3 2] \<and>
   filter is_validate (trace (edit_handler permissive_env (request_of 3 [] [] []) 0)) = [ValidatePage 3 4] \<and>
   filter is_validate (trace (delete_handler permissive_env (request_of 3 [] [] []) 0)) = [ValidatePage 3 8]"
proof -
  have "user (request_of 3 [] [] []) = Some \<lparr>roles = 3\<rparr>" by (simp add: request_of_def)
  from designated_bits [OF this, of permissive_env 0] show ?thesis by simp
qed

text \<open>
  C10. Every handler reads \<^verbatim>\<open>req.user.roles\<close> before anything else: when the
  authentication middleware has not populated \<^verbatim>\<open>req.user\<close>, each of the four handlers
  throws on that read, having made no permission check, no controller call and no
  response, and leaving the store as it was.
\<close>

theorem missing_user_throws:
  "user req = None \<Longrightarrow>
     router op env req s = \<lparr>trace = [], result = Inl TypeError, store = s\<rparr>"
  by (cases op) (simp_all add: handler_defs)

theorem missing_user_throws_witness:
  "router OpList permissive_env \<lparr>user = None, query = [], body = [], params = []\<rparr> 0 =
     \<lparr>trace = [], result = Inl TypeError, store = 0\<rparr> \<and>
   router OpCreate permissive_env \<lparr>user = None, query = [], body = [], params = []\<rparr> 0 =
     \<lparr>trace = [], result = Inl TypeError, store = 0\<rparr> \<and>
   router OpUpdate permissive_env \<lparr>user = None, query = [], body = [], params = []\<rparr> 0 =
     \<lparr>trace = [], result = Inl TypeError, store = 0\<rparr> \<and>
   router OpDelete permissive_env \<lparr>user = None, query = [], body = [], params = []\<rparr> 0 =
     \<lparr>trace = [], result = Inl TypeError, store = 0\<rparr>"
proof -
  have "user \<lparr>user = None, query = [], body = [], params = []\<rparr> = None" by simp
  from missing_user_throws [OF this, of _ permissive_env 0] show ?thesis by blast
qed

section \<open>Validation and error handling in the handlers\<close>

text \<open>
  C4, as stated, fails: a list request whose \<^verbatim>\<open>sort\<close> names the column \<^verbatim>\<open>passwd\<close>,
  which is no field of the record, is not rejected by the handler. The controller is
  called with the query as it came; with a controller that accepts it, the handler goes
  on to send the success response.
\<close>

theorem unknown_sort_column_reaches_controller:
  "map_of (query (request_of 1 [(''sort'', JStr ''passwd|asc'')] [] [])) ''sort'' = Some (JStr ''passwd|asc'') \<and>
   ''passwd'' \<in> set (sort_columns ''passwd|asc'') \<and>
   ''passwd'' \<notin> set record_fields \<and>
   list_handler permissive_env (request_of 1 [(''sort'', JStr ''passwd|asc'')] [] []) 0 =
     \<lparr>trace = [ValidatePage 1 1, GetData [(''sort'', JStr ''passwd|asc'')],
               SendSuccess (JObj [(''data'', JArr [])])],
      result = Inr (), store = 1\<rparr>"
  by (simp add: run_defs sort_columns_def record_fields_def)

text \<open>
  C4, amended. The list handler does not look at the sort specification: for every query,
  whatever its \<^verbatim>\<open>sort\<close>, once the permission check has passed the handler calls
  \<^verbatim>\<open>getData\<close> exactly once, with \<^verbatim>\<open>req.query\<close> unchanged. It then rejects with what
  that call throws, or else with what \<^verbatim>\<open>res.sendSuccess({ data })\<close> throws, and resolves
  otherwise. A failure for an unknown column can only come from the controller.
\<close>

theorem list_passes_query_unchanged:
  assumes "user req = Some u" and "validatePage env (roles u) 1 s = (Inr v, s1)"
  shows "filter is_persistence (trace (list_handler env req s)) = [GetData (query req)] \<and>
         result (list_handler env req s) =
           (case getData env (query req) s1 of
              (Inl e, s2) \<Rightarrow> Inl e
            | (Inr d, s2) \<Rightarrow>
                (case fst (sendSuccess env (JObj [(''data'', d)]) s2) of
                   Inl e \<Rightarrow> Inl e
                 | Inr w \<Rightarrow> Inr ()))"
  using router_after_check [of req u env OpList s v s1] assms
  by (simp split: prod.splits sum.splits)

theorem list_passes_query_unchanged_witness:
  "filter is_persistence (trace (list_handler failing_env (request_of 1 [(''sort'', JStr ''passwd|asc'')] [] []) 0)) =
     [GetData [(''sort'', JStr ''passwd|asc'')]] \<and>
   result (list_handler failing_env (request_of 1 [(''sort'', JStr ''passwd|asc'')] [] []) 0) =
     Inl (Kind (DatabaseError ''42P01'')) \<and>
   filter is_persistence (trace (list_handler unsendable_env (request_of 1 [(''sort'', JStr ''passwd|asc'')] [] []) 0)) =
     [GetData [(''sort'', JStr ''passwd|asc'')]] \<and>
   result (list_handler unsendable_env (request_of 1 [(''sort'', JStr ''passwd|asc'')] [] []) 0) =
     Inl TypeError"
proof -
  let ?r = "request_of 1 [(''sort'', JStr ''passwd|asc'')] [] []"
  have u: "user ?r = Some \<lparr>roles = 1\<rparr>" by (simp add: request_of_def)
  have v: "validatePage failing_env (roles \<lparr>roles = 1\<rparr>) 1 0 = (Inr JUndefined, 0)"
    by (simp add: run_defs)
  have w: "validatePage unsendable_env (roles \<lparr>roles = 1\<rparr>) 1 0 = (Inr JUndefined, 0)"
    by (simp add: run_defs)
  from list_passes_query_unchanged [OF u v] list_passes_query_unchanged [OF u w]
  show ?thesis
    by (simp add: failing_env_def unsendable_env_def permissive_env_def request_of_def)
qed

text \<open>
  C5, as stated, fails: a create request whose body has no \<^verbatim>\<open>year\<close> is not rejected by
  the handler. The controller is called with the body as it came; with a controller that
  accepts it, the handler goes on to send the success response.
\<close>

theorem create_without_year_reaches_controller:
  "map_of [(''color'', JStr ''#c684e3''), (''description'', JStr ''d''), (''bodyId'', JNum 7),
           (''modelId'', JNum 6)] ''year'' = None \<and>
   create_handler permissive_env
     (request_of 2 [] [(''color'', JStr ''#c684e3''), (''description'', JStr ''d''),
                       (''bodyId'', JNum 7), (''modelId'', JNum 6)] []) 0 =
     \<lparr>trace = [ValidatePage 2 2,
               CreateData [(''color'', JStr ''#c684e3''), (''description'', JStr ''d''),
                           (''bodyId'', JNum 7), (''modelId'', JNum 6)],
               SendSuccess (JObj [(''newBrokenCarId'', JNum 51)])],
      result = Inr (), store = 1\<rparr>"
  by (simp add: run_defs)

text \<open>
  C5, amended. The create handler does not look at the fields of the body: for every
  body, with or without \<^verbatim>\<open>color\<close>, \<^verbatim>\<open>description\<close>, \<^verbatim>\<open>year\<close>, \<^verbatim>\<open>bodyId\<close>,
  \<^verbatim>\<open>modelId\<close>, \<^verbatim>\<open>price\<close> or \<^verbatim>\<open>firstBrokenDate\<close>, once the permission check has
  passed the handler calls \<^verbatim>\<open>createData\<close> exactly once, with \<^verbatim>\<open>req.body\<close> unchanged.
  It then rejects with what that call throws, or else with what
  \<^verbatim>\<open>res.sendSuccess({ newBrokenCarId })\<close> throws, and resolves otherwise. A failure for a
  missing field can only come from the controller.
\<close>

theorem create_passes_body_unchanged:
  assumes "user req = Some u" and "validatePage env (roles u) 2 s = (Inr v, s1)"
  shows "filter is_persistence (trace (create_handler env req s)) = [CreateData (body req)] \<and>
         result (create_handler env req s) =
           (case createData env (body req) s1 of
              (Inl e, s2) \<Rightarrow> Inl e
            | (Inr d, s2) \<Rightarrow>
                (case fst (sendSuccess env (JObj [(''newBrokenCarId'', d)]) s2) of
                   Inl e \<Rightarrow> Inl e
                 | Inr w \<Rightarrow> Inr ()))"
  using router_after_check [of req u env OpCreate s v s1] assms
  by (simp split: prod.splits sum.splits)

theorem create_passes_body_unchanged_witness:
  "filter is_persistence (trace (create_handler permissive_env (request_of 2 [] [(''price'', JNum 978)] []) 0)) =
     [CreateData [(''price'', JNum 978)]] \<and>
   result (create_handler permissive_env (request_of 2 [] [(''price'', JNum 978)] []) 0) = Inr () \<and>
   filter is_persistence (trace (create_handler unsendable_env (request_of 2 [] [(''price'', JNum 978)] []) 0)) =
     [CreateData [(''price'', JNum 978)]] \<and>
   result (create_handler unsendable_env (request_of 2 [] [(''price'', JNum 978)] []) 0) = Inl TypeError"
proof -
  let ?r = "request_of 2 [] [(''price'', JNum 978)] []"
  have u: "user ?r = Some \<lparr>roles = 2\<rparr>" by (simp add: request_of_def)
  have v: "validatePage permissive_env (roles \<lparr>roles = 2\<rparr>) 2 0 = (Inr JUndefined, 0)"
    by (simp add: run_defs)
  have w: "validatePage unsendable_env (roles \<lparr>roles = 2\<rparr>) 2 0 = (Inr JUndefined, 0)"
    by (simp add: run_defs)
  from create_passes_body_unchanged [OF u v] create_passes_body_unchanged [OF u w]
  show ?thesis
    by (simp add: unsendable_env_def permissive_env_def request_of_def)
qed

text \<open>
  C6, as stated, fails: when the controller throws a database error, or the permission
  check throws \<^verbatim>\<open>PermissionDenied\<close>, the handler sends no response at all and its promise
  rejects with the thrown value.
\<close>

theorem failures_escape_the_handlers:
  "result (router OpList failing_env (request_of 1 [] [] []) 0) = Inl (Kind (DatabaseError ''42P01'')) \<and>
   filter is_response (trace (router OpList failing_env (request_of 1 [] [] []) 0)) = [] \<and>
   result (router OpDelete permissive_env (request_of 7 [] [] [(''id'', JStr ''1'')]) 0) =
     Inl (Kind PermissionDenied) \<and>
   filter is_response (trace (router OpDelete permissive_env (request_of 7 [] [] [(''id'', JStr ''1'')]) 0)) = []"
  by (simp add: run_defs)

text \<open>
  C6, amended. No handler catches or maps a failure. The promise of a handler rejects with
  \<open>e\<close> exactly when \<open>e\<close> is the \<^verbatim>\<open>TypeError\<close> of reading \<^verbatim>\<open>req.user.roles\<close> with
  \<^verbatim>\<open>req.user\<close> missing, or \<open>e\<close> is what the permission check threw, or, the check
  having resolved, what the controller call threw, or, both having resolved, what
  \<^verbatim>\<open>res.sendSuccess\<close> threw; each call runs in the state the one before it left. The only
  response a handler ever sends is the success one, after the check and the controller
  call have both resolved. Turning a rejection into the error envelope is left to whatever
  runs the handlers.
\<close>

theorem handlers_reject_with_what_is_thrown:
  "(result (router op env req s) = Inl e) =
     (case user req of
        None \<Rightarrow> e = TypeError
      | Some u \<Rightarrow>
          (case validatePage env (roles u) (check_bit op) s of
             (Inl e1, s1) \<Rightarrow> e1 = e
           | (Inr v, s1) \<Rightarrow>
               (case perform env (controller_call op req) s1 of
                  (Inl e2, s2) \<Rightarrow> e2 = e
                | (Inr d, s2) \<Rightarrow>
                    fst (sendSuccess env (success_payload op d) s2) = Inl e))) \<and>
   (\<forall>ev \<in> set (trace (router op env req s)). is_response ev \<longrightarrow>
      (\<exists>u v s1 d s2. user req = Some u \<and>
         validatePage env (roles u) (check_bit op) s = (Inr v, s1) \<and>
         perform env (controller_call op req) s1 = (Inr d, s2) \<and>
         ev = SendSuccess (success_payload op d)))"
proof (cases "user req")
  case None
  then show ?thesis by (auto simp: router_without_user)
next
  case (Some u)
  from router_shape [OF Some, of env op s] show ?thesis
  proof (elim disjE exE conjE)
    fix e1 s1
    assume "validatePage env (roles u) (check_bit op) s = (Inl e1, s1)"
      "router op env req s =
         \<lparr>trace = [ValidatePage (roles u) (check_bit op)], result = Inl e1, store = s1\<rparr>"
    with Some show ?thesis by simp
  next
    fix v s1 e2 s2
    assume "validatePage env (roles u) (check_bit op) s = (Inr v, s1)"
      "perform env (controller_call op req) s1 = (Inl e2, s2)"
      "router op env req s =
         \<lparr>trace = [ValidatePage (roles u) (check_bit op), controller_call op req],
          result = Inl e2, store = s2\<rparr>"
    with Some show ?thesis by simp
  next
    fix v s1 d s2 e3 s3
    assume "validatePage env (roles u) (check_bit op) s = (Inr v, s1)"
      "perform env (controller_call op req) s1 = (Inr d, s2)"
      "sendSuccess env (success_payload op d) s2 = (Inl e3, s3)"
      "router op env req s =
         \<lparr>trace = [ValidatePage (roles u) (check_bit op), controller_call op req,
                   SendSuccess (success_payload op d)],
          result = Inl e3, store = s3\<rparr>"
    with Some show ?thesis by simp
  next
    fix v s1 d s2 w s3
    assume "validatePage env (roles u) (check_bit op) s = (Inr v, s1)"
      "perform env (controller_call op req) s1 = (Inr d, s2)"
      "sendSuccess env (success_payload op d) s2 = (Inr w, s3)"
      "router op env req s =
         \<lparr>trace = [ValidatePage (roles u) (check_bit op), controller_call op req,
                   SendSuccess (success_payload op d)],
          result = Inr (), store = s3\<rparr>"
    with Some show ?thesis by simp
  qed
qed

theorem handlers_reject_with_what_is_thrown_witness:
  "result (router OpList failing_env (request_of 1 [] [] []) 0) = Inl (Kind (DatabaseError ''42P01'')) \<and>
   result (router OpDelete permissive_env (request_of 7 [] [] [(''id'', JStr ''1'')]) 0) =
     Inl (Kind PermissionDenied) \<and>
   result (router OpList unsendable_env (request_of 1 [] [] []) 0) = Inl TypeError \<and>
   SendSuccess (JObj [(''data'', JArr [])]) \<in> set (trace (router OpList permissive_env (request_of 1 [] [] []) 0)) \<and>
   is_response (SendSuccess (JObj [(''data'', JArr [])])) \<and>
   validatePage permissive_env 1 1 0 = (Inr JUndefined, 0) \<and>
   getData permissive_env [] 0 = (Inr (JArr []), 1)"
proof -
  let ?r = "request_of 1 [] [] []"
  let ?d = "request_of 7 [] [] [(''id'', JStr ''1'')]"
  let ?S = "SendSuccess (JObj [(''data'', JArr [])])"
  have a: "result (router OpList failing_env ?r 0) = Inl (Kind (DatabaseError ''42P01''))"
    using handlers_reject_with_what_is_thrown [of OpList failing_env ?r 0 "Kind (DatabaseError ''42P01'')"]
    by (simp add: failing_env_def permissive_env_def request_of_def checkPermission_def)
  have b: "result (router OpDelete permissive_env ?d 0) = Inl (Kind PermissionDenied)"
    using handlers_reject_with_what_is_thrown [of OpDelete permissive_env ?d 0 "Kind PermissionDenied"]
    by (simp add: permissive_env_def request_of_def checkPermission_def)
  have c: "result (router OpList unsendable_env ?r 0) = Inl TypeError"
    using handlers_reject_with_what_is_thrown [of OpList unsendable_env ?r 0 TypeError]
    by (simp add: unsendable_env_def permissive_env_def request_of_def checkPermission_def)
  have m: "?S \<in> set (trace (router OpList permissive_env ?r 0))" "is_response ?S"
    by (simp_all add: run_defs)
  from handlers_reject_with_what_is_thrown [of OpList permissive_env ?r 0] m
  obtain u v s1 d s2 where "user ?r = Some u"
    "validatePage permissive_env (roles u) (check_bit OpList) 0 = (Inr v, s1)"
    "perform permissive_env (controller_call OpList ?r) s1 = (Inr d, s2)" by blast
  then have p: "validatePage permissive_env 1 1 0 = (Inr JUndefined, 0)"
    "getData permissive_env [] 0 = (Inr (JArr []), 1)"
    by (simp_all add: permissive_env_def request_of_def checkPermission_def)
  from a b c m p show ?thesis by blast
qed

section \<open>What the update handler passes on\<close>

text \<open>
  C7. For every update request that passes the permission check, the one object passed to
  the controller holds, apart from the path parameters, exactly the fields of the request
  body with the body's values: a field that the body does not have is absent from the
  object, not present with \<^verbatim>\<open>null\<close> or a default.
\<close>

theorem update_passes_only_body_fields:
  assumes "user req = Some u" and "validatePage env (roles u) 4 s = (Inr v, s1)"
  shows "filter is_persistence (trace (edit_handler env req s)) = [UpdateData (edit_arg req)] \<and>
         (\<forall>k. k \<notin> fst ` set (params req) \<longrightarrow> map_of (edit_arg req) k = map_of (body req) k)"
proof -
  have "map_of (edit_arg req) k = map_of (body req) k" if "k \<notin> fst ` set (params req)" for k
  proof -
    from that have "map_of (params req) k = None" by (simp add: map_of_eq_None_iff)
    then show ?thesis by (simp add: map_of_edit_arg split: option.splits)
  qed
  with router_after_check [of req u env OpUpdate s v s1] assms show ?thesis by simp
qed

theorem update_passes_only_body_fields_witness:
  "filter is_persistence
     (trace (edit_handler permissive_env
        (request_of 4 [] [(''color'', JStr ''#fff'')] [(''id'', JStr ''1'')]) 0)) =
     [UpdateData [(''id'', JStr ''1''), (''color'', JStr ''#fff'')]] \<and>
   ''color'' \<notin> fst ` set [(''id'', JStr ''1'')] \<and>
   map_of (edit_arg (request_of 4 [] [(''color'', JStr ''#fff'')] [(''id'', JStr ''1'')])) ''color'' =
     Some (JStr ''#fff'') \<and>
   ''year'' \<notin> fst ` set [(''id'', JStr ''1'')] \<and>
   map_of (edit_arg (request_of 4 [] [(''color'', JStr ''#fff'')] [(''id'', JStr ''1'')])) ''year'' = None"
proof -
  let ?r = "request_of 4 [] [(''color'', JStr ''#fff'')] [(''id'', JStr ''1'')]"
  have u: "user ?r = Some \<lparr>roles = 4\<rparr>" by (simp add: request_of_def)
  have v: "validatePage permissive_env (roles \<lparr>roles = 4\<rparr>) 4 0 = (Inr JUndefined, 0)"
    by (simp add: run_defs)
  have a: "edit_arg ?r = [(''id'', JStr ''1''), (''color'', JStr ''#fff'')]"
    by (simp add: run_defs)
  have p: "params ?r = [(''id'', JStr ''1'')]" "body ?r = [(''color'', JStr ''#fff'')]"
    by (simp_all add: request_of_def)
  have k: "''color'' \<notin> fst ` set (params ?r)" "''year'' \<notin> fst ` set (params ?r)"
    by (simp_all add: request_of_def)
  from update_passes_only_body_fields [OF u v] k
  have "filter is_persistence (trace (edit_handler permissive_env ?r 0)) = [UpdateData (edit_arg ?r)]"
    "map_of (edit_arg ?r) ''color'' = map_of (body ?r) ''color''"
    "map_of (edit_arg ?r) ''year'' = map_of (body ?r) ''year''"
    by blast+
  with a p k show ?thesis by simp
qed

text \<open>
  C9. In the update handler the object passed to the controller is the path parameters
  merged with the request body, the body's keys taking precedence: for every update request
  whose body has a key \<^verbatim>\<open>id\<close>, the controller receives the body's value of \<^verbatim>\<open>id\<close>, not
  the one of the path.
\<close>

theorem body_id_overrides_path_id:
  assumes "user req = Some u" and "validatePage env (roles u) 4 s = (Inr v, s1)"
    and "map_of (body req) ''id'' = Some w"
  shows "filter is_persistence (trace (edit_handler env req s)) = [UpdateData (edit_arg req)] \<and>
         map_of (edit_arg req) ''id'' = Some w \<and>
         (\<forall>k. map_of (edit_arg req) k =
                (case map_of (body req) k of None \<Rightarrow> map_of (params req) k | Some x \<Rightarrow> Some x))"
  using router_after_check [of req u env OpUpdate s v s1] assms
  by (simp add: map_of_edit_arg)

theorem body_id_overrides_path_id_witness:
  "map_of (params (request_of 4 [] [(''id'', JNum 2), (''color'', JStr ''#fff'')] [(''id'', JStr ''1'')])) ''id'' =
     Some (JStr ''1'') \<and>
   map_of (body (request_of 4 [] [(''id'', JNum 2), (''color'', JStr ''#fff'')] [(''id'', JStr ''1'')])) ''id'' =
     Some (JNum 2) \<and>
   filter is_persistence
     (trace (edit_handler permissive_env
        (request_of 4 [] [(''id'', JNum 2), (''color'', JStr ''#fff'')] [(''id'', JStr ''1'')]) 0)) =
     [UpdateData [(''id'', JNum 2), (''color'', JStr ''#fff'')]]"
proof -
  let ?r = "request_of 4 [] [(''id'', JNum 2), (''color'', JStr ''#fff'')] [(''id'', JStr ''1'')]"
  have u: "user ?r = Some \<lparr>roles = 4\<rparr>" by (simp add: request_of_def)
  have v: "validatePage permissive_env (roles \<lparr>roles = 4\<rparr>) 4 0 = (Inr JUndefined, 0)"
    by (simp add: run_defs)
  have b: "map_of (body ?r) ''id'' = Some (JNum 2)" by (simp add: request_of_def)
  have a: "edit_arg ?r = [(''id'', JNum 2), (''color'', JStr ''#fff'')]"
    by (simp add: run_defs)
  from body_id_overrides_path_id [OF u v b] a b show ?thesis by (simp add: request_of_def)
qed

section \<open>The query builder of the specification\<close>

text \<open>
  C8. For every list request with all filter keys absent, no sort specification and no
  pagination parameters, the query builder does not fail, and the query it builds has no
  predicate, no sort key (natural order), limit 20 and offset 0.
\<close>

theorem buildListQuery_defaults:
  assumes "\<forall>k \<in> set record_fields. map_of filters k = None"
  shows "buildListQuery filters \<lparr>limit = None, offset = None\<rparr> None =
           Inr \<lparr>predicates = [], sort_keys = [], row_limit = 20, row_offset = 0\<rparr>"
proof -
  from assms have "filter_predicates filters = []"
    by (simp add: filter_predicates_def)
  then show ?thesis by (simp add: buildListQuery_def)
qed

theorem buildListQuery_defaults_witness:
  "buildListQuery [] \<lparr>limit = None, offset = None\<rparr> None =
     Inr \<lparr>predicates = [], sort_keys = [], row_limit = 20, row_offset = 0\<rparr> \<and>
   buildListQuery [(''page'', JStr ''3'')] \<lparr>limit = None, offset = None\<rparr> None =
     Inr \<lparr>predicates = [], sort_keys = [], row_limit = 20, row_offset = 0\<rparr>"
proof -
  have a: "\<forall>k \<in> set record_fields. map_of ([] :: jsobj) k = None" by simp
  have b: "\<forall>k \<in> set record_fields. map_of [(''page'', JStr ''3'')] k = None"
    by (simp add: record_fields_def)
  from buildListQuery_defaults [OF a] buildListQuery_defaults [OF b] show ?thesis by blast
qed

end
